theory Spec2Isabelle
  imports Main "HOL-Library.AList"
begin

section \<open>Data model\<close>

text \<open>
  Component and cell types are the strings \<^verbatim>\<open>'NO'\<close>, \<^verbatim>\<open>'NC'\<close>, \<^verbatim>\<open>'OUT'\<close>,
  \<^verbatim>\<open>'HLINE'\<close>, \<^verbatim>\<open>'VLINE'\<close>, \<^verbatim>\<open>'BOTH'\<close>; every other string falls into the
  \<^verbatim>\<open>default\<close> case of the engines' \<^verbatim>\<open>switch\<close> statements and is \<open>OTHER\<close> here.
\<close>

datatype kind = NO | NC | OUT | HLINE | VLINE | BOTH | OTHER

text \<open>
  A component of a branch: \<^verbatim>\<open>{ type, address, label, col }\<close>. The editor creates a
  component with the empty string as address (\<^verbatim>\<open>addComponent(row, col, tool, '', '')\<close>);
  the empty string is the unset address.
\<close>

record component =
  ctype :: kind
  address :: string
  label :: string
  col :: int

text \<open>A branch of \<^verbatim>\<open>LadderStructure\<close>; \<^verbatim>\<open>null\<close> is \<open>None\<close>.\<close>

record branch =
  branch_id :: int
  row :: int
  start_col :: int
  end_col :: int
  parent_branch_id :: "int option"
  connection_col :: "int option"
  components :: "component list"

record rung =
  rung_id :: int
  branches :: "branch list"

type_synonym ladderStructure = "rung list"

text \<open>\<^verbatim>\<open>LadderStructure.getAllBranches\<close>: the branches of all rungs, in rung order.\<close>

fun getAllBranches :: "ladderStructure \<Rightarrow> branch list" where
  "getAllBranches [] = []"
| "getAllBranches (r # rs) = branches r @ getAllBranches rs"

text \<open>\<^verbatim>\<open>LadderStructure.findBranchById\<close>: the first branch with that id, or \<^verbatim>\<open>null\<close>.\<close>

fun findBranchById :: "ladderStructure \<Rightarrow> int \<Rightarrow> branch option" where
  "findBranchById [] i = None"
| "findBranchById (r # rs) i =
     (case find (\<lambda>b. branch_id b = i) (branches r) of
        Some b \<Rightarrow> Some b
      | None \<Rightarrow> findBranchById rs i)"

text \<open>\<^verbatim>\<open>LadderStructure.findBranchAtRow\<close>.\<close>

fun findBranchAtRow :: "ladderStructure \<Rightarrow> int \<Rightarrow> branch option" where
  "findBranchAtRow [] r = None"
| "findBranchAtRow (g # gs) r =
     (case find (\<lambda>b. row b = r) (branches g) of
        Some b \<Rightarrow> Some b
      | None \<Rightarrow> findBranchAtRow gs r)"

text \<open>\<^verbatim>\<open>String.prototype.startsWith\<close>.\<close>

definition startsWith :: "string \<Rightarrow> string \<Rightarrow> bool" where
  "startsWith s p = (take (length p) s = p)"

section \<open>The branch engine: class LadderSimulation (simulation-new.js)\<close>

text \<open>
  The engine's state. \<^verbatim>\<open>pinStates\<close> is a JavaScript object used as a dictionary from
  address to boolean; it is an association list in insertion order, because
  \<^verbatim>\<open>Object.keys\<close> enumerates it. \<^verbatim>\<open>branchPowerStates\<close> has keys
  \<^verbatim>\<open>`branch-${id}-col-${col}`\<close>, here the pair of the id and the column (the column
  of a lookup may be \<^verbatim>\<open>null\<close>, which no write uses); \<^verbatim>\<open>componentStates\<close> has keys
  \<^verbatim>\<open>`${row}-${col}`\<close>, here the pair of row and column.
\<close>

record sim =
  isRunning :: bool
  pinStates :: "(string \<times> bool) list"
  branchPowerStates :: "(int \<times> int option) \<rightharpoonup> bool"
  componentStates :: "(int \<times> int) \<rightharpoonup> bool"

text \<open>\<^verbatim>\<open>getPinState(address) { return this.pinStates[address] || false; }\<close>\<close>

definition getPinState :: "sim \<Rightarrow> string \<Rightarrow> bool" where
  "getPinState s a = (case map_of (pinStates s) a of Some v \<Rightarrow> v | None \<Rightarrow> False)"

text \<open>The object \<^verbatim>\<open>{ powerAfter, isActive }\<close> that \<^verbatim>\<open>evaluateComponent\<close> returns.\<close>

record result =
  powerAfter :: bool
  isActive :: bool

text \<open>
  \<^verbatim>\<open>LadderSimulation.evaluateComponent\<close>. The \<^verbatim>\<open>OUT\<close> case assigns
  \<^verbatim>\<open>this.pinStates[component.address] = true\<close> when powered, whatever the address.
\<close>

definition evaluateComponent :: "component \<Rightarrow> bool \<Rightarrow> sim \<Rightarrow> result \<times> sim" where
  "evaluateComponent c powerBefore s =
     (let pinState = getPinState s (address c) in
      case ctype c of
        NO \<Rightarrow> (\<lparr>powerAfter = powerBefore \<and> pinState, isActive = pinState\<rparr>, s)
      | NC \<Rightarrow> (\<lparr>powerAfter = powerBefore \<and> \<not> pinState, isActive = \<not> pinState\<rparr>, s)
      | OUT \<Rightarrow> (\<lparr>powerAfter = powerBefore, isActive = powerBefore\<rparr>,
                 if powerBefore
                 then s\<lparr>pinStates := AList.update (address c) True (pinStates s)\<rparr>
                 else s)
      | _ \<Rightarrow> (\<lparr>powerAfter = powerBefore, isActive = False\<rparr>, s))"

text \<open>The loop \<^verbatim>\<open>for (const component of branch.components)\<close> of \<^verbatim>\<open>evaluateBranch\<close>.\<close>

fun evaluateComponents :: "branch \<Rightarrow> component list \<Rightarrow> bool \<Rightarrow> sim \<Rightarrow> bool \<times> sim" where
  "evaluateComponents b [] hasPower s = (hasPower, s)"
| "evaluateComponents b (c # cs) hasPower s =
     (let s1 = s\<lparr>branchPowerStates :=
                  (branchPowerStates s)((branch_id b, Some (col c)) \<mapsto> hasPower)\<rparr>;
          (res, s2) = evaluateComponent c hasPower s1;
          hasPower' = powerAfter res;
          s3 = s2\<lparr>componentStates :=
                   (componentStates s2)((row b, col c) \<mapsto> isActive res)\<rparr>;
          s4 = s3\<lparr>branchPowerStates :=
                   (branchPowerStates s3)((branch_id b, Some (col c + 1)) \<mapsto> hasPower')\<rparr>
      in evaluateComponents b cs hasPower' s4)"

text \<open>
  The incoming power of a branch: the left rail for a branch without parent, else the
  power recorded for the parent at the connection column, \<^verbatim>\<open>false\<close> when the parent is
  not found or nothing is recorded.
\<close>

definition incomingPower :: "ladderStructure \<Rightarrow> branch \<Rightarrow> sim \<Rightarrow> bool" where
  "incomingPower L b s =
     (case parent_branch_id b of
        None \<Rightarrow> True
      | Some pid \<Rightarrow>
          (case findBranchById L pid of
             None \<Rightarrow> False
           | Some parentBranch \<Rightarrow>
               (case branchPowerStates s (branch_id parentBranch, connection_col b) of
                  Some v \<Rightarrow> v
                | None \<Rightarrow> False)))"

text \<open>\<^verbatim>\<open>LadderSimulation.evaluateBranch\<close>.\<close>

definition evaluateBranch :: "ladderStructure \<Rightarrow> branch \<Rightarrow> sim \<Rightarrow> sim" where
  "evaluateBranch L b s =
     (let hasPower = incomingPower L b s;
          s1 = s\<lparr>branchPowerStates :=
                  (branchPowerStates s)((branch_id b, Some (start_col b)) \<mapsto> hasPower)\<rparr>;
          (hasPower', s2) = evaluateComponents b (components b) hasPower s1
      in s2\<lparr>branchPowerStates :=
              (branchPowerStates s2)((branch_id b, Some (end_col b)) \<mapsto> hasPower')\<rparr>)"

text \<open>
  The comparator of \<^verbatim>\<open>branches.sort\<close> in \<^verbatim>\<open>evaluateLadder\<close>: a branch without
  parent before a branch with one, else by row.
\<close>

definition branchCompare :: "branch \<Rightarrow> branch \<Rightarrow> int" where
  "branchCompare a b =
     (if parent_branch_id a = None \<and> parent_branch_id b \<noteq> None then - 1
      else if parent_branch_id a \<noteq> None \<and> parent_branch_id b = None then 1
      else row a - row b)"

text \<open>
  \<^verbatim>\<open>Array.prototype.sort\<close> with a comparator is a stable sort: an element goes before
  the first element of the sorted rest that it does not compare greater than.
\<close>

fun insertBy :: "('a \<Rightarrow> 'a \<Rightarrow> int) \<Rightarrow> 'a \<Rightarrow> 'a list \<Rightarrow> 'a list" where
  "insertBy cmp x [] = [x]"
| "insertBy cmp x (y # ys) = (if cmp x y \<le> 0 then x # y # ys else y # insertBy cmp x ys)"

fun sortBy :: "('a \<Rightarrow> 'a \<Rightarrow> int) \<Rightarrow> 'a list \<Rightarrow> 'a list" where
  "sortBy cmp [] = []"
| "sortBy cmp (x # xs) = insertBy cmp x (sortBy cmp xs)"

text \<open>The order in which \<^verbatim>\<open>evaluateLadder\<close> evaluates the branches.\<close>

definition evaluationOrder :: "ladderStructure \<Rightarrow> branch list" where
  "evaluationOrder L = sortBy branchCompare (getAllBranches L)"

text \<open>The loop \<^verbatim>\<open>for (const branch of branches)\<close> of \<^verbatim>\<open>evaluateLadder\<close>.\<close>

fun evaluateBranches :: "ladderStructure \<Rightarrow> branch list \<Rightarrow> sim \<Rightarrow> sim" where
  "evaluateBranches L [] s = s"
| "evaluateBranches L (b # bs) s = evaluateBranches L bs (evaluateBranch L b s)"

text \<open>
  \<^verbatim>\<open>LadderSimulation.evaluateLadder\<close>; \<^verbatim>\<open>window.ladderStructure\<close> may be missing
  (\<open>None\<close>), then nothing is evaluated.
\<close>

definition evaluateLadder :: "ladderStructure option \<Rightarrow> sim \<Rightarrow> sim" where
  "evaluateLadder W s =
     (case W of
        None \<Rightarrow> s
      | Some L \<Rightarrow> evaluateBranches L (evaluationOrder L) s)"

text \<open>
  The loop of \<^verbatim>\<open>executeScan\<close> over \<^verbatim>\<open>Object.keys(this.pinStates)\<close> that sets every
  pin whose address starts with \<^verbatim>\<open>'O:'\<close> to \<^verbatim>\<open>false\<close>.
\<close>

definition clearOutputs :: "(string \<times> bool) list \<Rightarrow> (string \<times> bool) list" where
  "clearOutputs ps = map (\<lambda>(a, v). (a, if startsWith a ''O:'' then False else v)) ps"

text \<open>\<^verbatim>\<open>LadderSimulation.executeScan\<close> (the redraw is the renderer's).\<close>

definition executeScan :: "ladderStructure option \<Rightarrow> sim \<Rightarrow> sim" where
  "executeScan W s =
     evaluateLadder W
       (s\<lparr>branchPowerStates := Map.empty,
          componentStates := Map.empty,
          pinStates := clearOutputs (pinStates s)\<rparr>)"

text \<open>
  \<^verbatim>\<open>LadderSimulation.toggleInput\<close>: the returned value and the new state.
  \<^verbatim>\<open>!this.pinStates[address]\<close> is \<^verbatim>\<open>true\<close> for a missing entry.
\<close>

definition toggleInput :: "ladderStructure option \<Rightarrow> string \<Rightarrow> sim \<Rightarrow> bool \<times> sim" where
  "toggleInput W a s =
     (if startsWith a ''I:'' \<or> startsWith a ''O:''
      then
        (let s1 = s\<lparr>pinStates := AList.update a (\<not> getPinState s a) (pinStates s)\<rparr>;
             s2 = (if isRunning s1 then executeScan W s1 else s1)
         in (getPinState s2 a, s2))
      else (False, s))"

text \<open>\<^verbatim>\<open>LadderSimulation.isWireEnergized\<close>.\<close>

definition isWireEnergized :: "ladderStructure option \<Rightarrow> sim \<Rightarrow> int \<Rightarrow> int \<Rightarrow> bool" where
  "isWireEnergized W s r c =
     (case W of
        None \<Rightarrow> False
      | Some L \<Rightarrow>
          (case findBranchAtRow L r of
             None \<Rightarrow> False
           | Some b \<Rightarrow>
               if start_col b \<le> c \<and> c \<le> end_col b
               then (case branchPowerStates s (branch_id b, Some c) of
                       Some v \<Rightarrow> v
                     | None \<Rightarrow> False)
               else False))"

text \<open>\<^verbatim>\<open>LadderSimulation.isComponentActive\<close>.\<close>

definition isComponentActive :: "sim \<Rightarrow> int \<Rightarrow> int \<Rightarrow> bool" where
  "isComponentActive s r c =
     (case componentStates s (r, c) of Some v \<Rightarrow> v | None \<Rightarrow> False)"

text \<open>
  The outcome of a scan for a caller. The error names are the specification's; the
  source has no \<^verbatim>\<open>throw\<close> statement and no error value, and every path of
  \<^verbatim>\<open>executeScan\<close>, \<^verbatim>\<open>evaluateLadder\<close>, \<^verbatim>\<open>evaluateBranch\<close> and
  \<^verbatim>\<open>evaluateComponent\<close> returns normally, so the outcome is always the new state.
\<close>

datatype scan_error = DanglingParentError | CyclicTopologyError

definition scan :: "ladderStructure option \<Rightarrow> sim \<Rightarrow> scan_error + sim" where
  "scan W s = Inr (executeScan W s)"

subsection \<open>The evaluations of one scan, in order\<close>

text \<open>One round of the component loop of \<^verbatim>\<open>evaluateBranch\<close>, as \<open>evaluateComponents\<close> runs it.\<close>

definition componentStep :: "branch \<Rightarrow> component \<Rightarrow> bool \<Rightarrow> sim \<Rightarrow> bool \<times> sim" where
  "componentStep b c hasPower s = evaluateComponents b [c] hasPower s"

text \<open>
  The calls \<^verbatim>\<open>evaluateComponent(component, hasPower)\<close> that a scan makes, each with the
  power that reaches the component, in the order of the calls.
\<close>

fun componentCalls :: "branch \<Rightarrow> component list \<Rightarrow> bool \<Rightarrow> sim \<Rightarrow> (component \<times> bool) list" where
  "componentCalls b [] hasPower s = []"
| "componentCalls b (c # cs) hasPower s =
     (c, hasPower) #
     componentCalls b cs (fst (componentStep b c hasPower s)) (snd (componentStep b c hasPower s))"

definition branchCalls :: "ladderStructure \<Rightarrow> branch \<Rightarrow> sim \<Rightarrow> (component \<times> bool) list" where
  "branchCalls L b s =
     componentCalls b (components b) (incomingPower L b s)
       (s\<lparr>branchPowerStates :=
            (branchPowerStates s)((branch_id b, Some (start_col b)) \<mapsto> incomingPower L b s)\<rparr>)"

fun ladderCalls :: "ladderStructure \<Rightarrow> branch list \<Rightarrow> sim \<Rightarrow> (component \<times> bool) list" where
  "ladderCalls L [] s = []"
| "ladderCalls L (b # bs) s = branchCalls L b s @ ladderCalls L bs (evaluateBranch L b s)"

definition scanCalls :: "ladderStructure option \<Rightarrow> sim \<Rightarrow> (component \<times> bool) list" where
  "scanCalls W s =
     (case W of
        None \<Rightarrow> []
      | Some L \<Rightarrow>
          ladderCalls L (evaluationOrder L)
            (s\<lparr>branchPowerStates := Map.empty,
               componentStates := Map.empty,
               pinStates := clearOutputs (pinStates s)\<rparr>))"

text \<open>Some coil bound to the address was evaluated with power.\<close>

definition coilPowered :: "(component \<times> bool) list \<Rightarrow> string \<Rightarrow> bool" where
  "coilPowered calls a = list_ex (\<lambda>(c, p). ctype c = OUT \<and> address c = a \<and> p) calls"



section \<open>The row engine: class LadderSimulator over class LadderData\<close>


record simulator =
  isRunning_S :: bool
  pinStates_S :: "(string \<times> bool) list"
  wireStates_S :: "(int \<times> int) \<rightharpoonup> bool"
  componentStates_S :: "(int \<times> int) \<rightharpoonup> bool"

definition getPinState_S :: "simulator \<Rightarrow> string \<Rightarrow> bool" where
  "getPinState_S s a = (case map_of (pinStates_S s) a of Some v \<Rightarrow> v | None \<Rightarrow> False)"





text \<open>The loops \<^verbatim>\<open>for (let col = lo; col < hi; col++) if (currentPower) wireStates[`${row}-${col}`] = true\<close>.\<close>

definition markWires :: "int \<Rightarrow> int \<Rightarrow> int \<Rightarrow> bool \<Rightarrow> simulator \<Rightarrow> simulator" where
  "markWires r lo hi currentPower s =
     (if currentPower
      then fold (\<lambda>k t. t\<lparr>wireStates_S := (wireStates_S t)((r, k) \<mapsto> True)\<rparr>) [lo..hi - 1] s
      else s)"






subsection \<open>The evaluations of one scan of the row engine, in order\<close>







text \<open>The coil calls among the calls, as writes: the address and the power written.\<close>

definition coilWrites :: "(component \<times> bool) list \<Rightarrow> (string \<times> bool) list" where
  "coilWrites calls = map (\<lambda>(c, p). (address c, p)) (filter (\<lambda>(c, p). ctype c = OUT) calls)"

text \<open>
  The value of the pin \<open>a\<close> after a sequence of writes, starting with the value \<open>v\<close>:
  every write to \<open>a\<close> replaces the value, so the last one stays.
\<close>

definition lastWrite :: "(string \<times> bool) list \<Rightarrow> string \<Rightarrow> bool \<Rightarrow> bool" where
  "lastWrite ws a v = fold (\<lambda>(x, p) u. if x = a then p else u) ws v"

section \<open>The grid engine: class PLCSimulation with the feedback loop\<close>

text \<open>
  A cell of \<^verbatim>\<open>window.grid\<close>; an absent address is the empty string, which
  \<^verbatim>\<open>cell.address && ...\<close> rejects like \<^verbatim>\<open>undefined\<close>.
\<close>

record cell =
  cell_type :: kind
  cell_address :: string

text \<open>
  \<^verbatim>\<open>window.grid\<close>, \<^verbatim>\<open>window.ROWS\<close> and \<^verbatim>\<open>window.COLS\<close>. The grid is an array
  of \<open>ROWS\<close> rows of \<open>COLS\<close> cells or \<^verbatim>\<open>null\<close>s, and the engine reads it inside these
  bounds only, so it is a function of row and column here.
\<close>

record gridEnv =
  grid :: "nat \<Rightarrow> nat \<Rightarrow> cell option"
  ROWS :: nat
  COLS :: nat

text \<open>
  The guard \<^verbatim>\<open>if (!window.grid || !window.ROWS || !window.COLS) return\<close>: \<open>None\<close>
  is a missing grid, and a zero count is falsy.
\<close>

definition gridAvailable :: "gridEnv option \<Rightarrow> gridEnv option" where
  "gridAvailable G =
     (case G of
        None \<Rightarrow> None
      | Some g \<Rightarrow> if ROWS g = 0 \<or> COLS g = 0 then None else Some g)"

record plc =
  isRunning_P :: bool
  pinStates_P :: "(string \<times> bool) list"
  wireStates_P :: "(nat \<times> nat) \<rightharpoonup> bool"
  componentStates_P :: "(nat \<times> nat) \<rightharpoonup> bool"

definition getPinState_P :: "plc \<Rightarrow> string \<Rightarrow> bool" where
  "getPinState_P s a = (case map_of (pinStates_P s) a of Some v \<Rightarrow> v | None \<Rightarrow> False)"

text \<open>\<^verbatim>\<open>cell && (cell.type === 'VLINE' || cell.type === 'BOTH')\<close>\<close>

definition isVertical :: "cell option \<Rightarrow> bool" where
  "isVertical x = (case x of None \<Rightarrow> False | Some c \<Rightarrow> cell_type c = VLINE \<or> cell_type c = BOTH)"

text \<open>\<^verbatim>\<open>!cell || cell.type === 'HLINE' || cell.type === 'VLINE' || cell.type === 'BOTH'\<close>\<close>

definition isWire :: "cell option \<Rightarrow> bool" where
  "isWire x =
     (case x of
        None \<Rightarrow> True
      | Some c \<Rightarrow> cell_type c = HLINE \<or> cell_type c = VLINE \<or> cell_type c = BOTH)"

text \<open>\<^verbatim>\<open>cell.type === 'NO' || cell.type === 'NC' || cell.type === 'OUT'\<close> of a cell.\<close>

definition isPart :: "cell option \<Rightarrow> bool" where
  "isPart x =
     (case x of
        None \<Rightarrow> False
      | Some c \<Rightarrow> cell_type c = NO \<or> cell_type c = NC \<or> cell_type c = OUT)"

subsection \<open>initializeBranchPower\<close>

text \<open>
  The set of \<^verbatim>\<open>rowPowerColumns\<close> for a row below the first: the columns where the
  row above has a vertical line, in the order they are added.
\<close>

definition powerCols :: "gridEnv \<Rightarrow> nat \<Rightarrow> nat list" where
  "powerCols g r = filter (\<lambda>k. isVertical (grid g (r - 1) k)) [0..<COLS g]"

text \<open>Row 0: energize from the left up to the first component.\<close>

fun energizeMain :: "gridEnv \<Rightarrow> nat list \<Rightarrow> plc \<Rightarrow> plc" where
  "energizeMain g [] s = s"
| "energizeMain g (k # ks) s =
     (if isWire (grid g 0 k)
      then energizeMain g ks (s\<lparr>wireStates_P := (wireStates_P s)((0, k) \<mapsto> True)\<rparr>)
      else s)"

text \<open>The leftmost column of a row that holds a horizontal line or a component, else 0.\<close>

definition findStartCol :: "gridEnv \<Rightarrow> nat \<Rightarrow> nat" where
  "findStartCol g r =
     (case find (\<lambda>k. case grid g r k of
                        None \<Rightarrow> False
                      | Some c \<Rightarrow> cell_type c = HLINE \<or> cell_type c = BOTH \<or> isPart (Some c))
             [0..<COLS g] of
        Some k \<Rightarrow> k
      | None \<Rightarrow> 0)"

text \<open>A branch row: energize from the start column up to the first component.\<close>

fun energizeBranch :: "gridEnv \<Rightarrow> nat \<Rightarrow> nat list \<Rightarrow> plc \<Rightarrow> plc" where
  "energizeBranch g r [] s = s"
| "energizeBranch g r (k # ks) s =
     (if isWire (grid g r k)
      then energizeBranch g r ks (s\<lparr>wireStates_P := (wireStates_P s)((r, k) \<mapsto> True)\<rparr>)
      else if isPart (grid g r k) then s
      else energizeBranch g r ks s)"

text \<open>
  \<^verbatim>\<open>PLCSimulation.initializeBranchPower\<close>: row 0 first, then the rows below in
  ascending order (the insertion order of the \<^verbatim>\<open>Map\<close>), each once for every power
  column it has.
\<close>

definition initializeBranchPower :: "gridEnv option \<Rightarrow> plc \<Rightarrow> plc" where
  "initializeBranchPower G s =
     (case gridAvailable G of
        None \<Rightarrow> s
      | Some g \<Rightarrow>
          fold (\<lambda>r t. fold (\<lambda>k u. energizeBranch g r [findStartCol g r..<COLS g] u)
                         (powerCols g r) t)
            [1..<ROWS g]
            (energizeMain g [0..<COLS g] s))"

subsection \<open>evaluateLadder over the grid\<close>

text \<open>\<^verbatim>\<open>PLCSimulation.isConnectedToLeftRail\<close>.\<close>

definition isConnectedToLeftRail :: "gridEnv \<Rightarrow> nat \<Rightarrow> nat \<Rightarrow> bool" where
  "isConnectedToLeftRail g targetRow k =
     (if targetRow = 0 then True
      else
        list_ex (\<lambda>checkCol.
            list_ex (\<lambda>r.
                isVertical (grid g r checkCol) \<and>
                list_all (\<lambda>checkR. isVertical (grid g checkR checkCol)) [r..<targetRow])
              [0..<targetRow])
          [0..<Suc k])"

text \<open>\<^verbatim>\<open>PLCSimulation.checkVerticalPower\<close>.\<close>

definition checkVerticalPower :: "gridEnv \<Rightarrow> nat \<Rightarrow> nat \<Rightarrow> plc \<Rightarrow> bool" where
  "checkVerticalPower g r k s =
     (if 0 < k \<and> 0 < r \<and> isVertical (grid g (r - 1) (k - 1))
      then wireStates_P s (r - 1, k - 1) = Some True
      else False)"

text \<open>
  \<^verbatim>\<open>PLCSimulation.evaluateCell\<close>: whether power passes the cell, and the new state.
  A coil writes its pin only when the address starts with \<^verbatim>\<open>'O:'\<close>.
\<close>

definition evaluateCell :: "gridEnv \<Rightarrow> nat \<Rightarrow> nat \<Rightarrow> plc \<Rightarrow> bool \<times> plc" where
  "evaluateCell g r k s =
     (case grid g r k of
        None \<Rightarrow> (r = 0, s)
      | Some c \<Rightarrow>
          (case cell_type c of
             HLINE \<Rightarrow> (True, s)
           | BOTH \<Rightarrow> (True, s)
           | VLINE \<Rightarrow> (r = 0, s)
           | NO \<Rightarrow>
               (let noInputState = getPinState_P s (cell_address c)
                in (noInputState,
                    s\<lparr>componentStates_P := (componentStates_P s)((r, k) \<mapsto> noInputState)\<rparr>))
           | NC \<Rightarrow>
               (let ncConducts = \<not> getPinState_P s (cell_address c)
                in (ncConducts,
                    s\<lparr>componentStates_P := (componentStates_P s)((r, k) \<mapsto> ncConducts)\<rparr>))
           | OUT \<Rightarrow>
               (let s1 = (if cell_address c \<noteq> [] \<and> startsWith (cell_address c) ''O:''
                          then s\<lparr>pinStates_P := AList.update (cell_address c) True (pinStates_P s)\<rparr>
                          else s)
                in (True, s1\<lparr>componentStates_P := (componentStates_P s1)((r, k) \<mapsto> True)\<rparr>))
           | OTHER \<Rightarrow> (True, s)))"

text \<open>The loop over the rows in \<^verbatim>\<open>evaluateColumn\<close>, filling \<^verbatim>\<open>columnPower\<close>.\<close>

fun evaluateRows :: "gridEnv \<Rightarrow> nat \<Rightarrow> nat list \<Rightarrow> plc \<Rightarrow> bool list \<times> plc" where
  "evaluateRows g k [] s = ([], s)"
| "evaluateRows g k (r # rs) s =
     (let hasPower =
            (if k = 0 then (if 0 < r then isConnectedToLeftRail g r k else True)
             else (wireStates_P s (r, k - 1) = Some True) \<or> checkVerticalPower g r k s);
          (hasPower', s1) = (if hasPower then evaluateCell g r k s else (hasPower, s));
          (columnPower, s2) = evaluateRows g k rs s1
      in (hasPower' # columnPower, s2))"

text \<open>\<^verbatim>\<open>PLCSimulation.handleParallelPaths\<close>, on the array \<^verbatim>\<open>columnPower\<close>.\<close>

definition handleParallelPaths :: "gridEnv \<Rightarrow> nat \<Rightarrow> nat \<Rightarrow> bool list \<Rightarrow> bool list" where
  "handleParallelPaths g k rows columnPower =
     fold (\<lambda>r cp.
         if isVertical (grid g r k)
         then (let cp1 = (if cp ! r then cp[Suc r := True] else cp)
               in if cp1 ! Suc r then cp1[r := True] else cp1)
         else cp)
       [0..<rows - 1] columnPower"

text \<open>\<^verbatim>\<open>PLCSimulation.evaluateColumn\<close>.\<close>

definition evaluateColumn :: "gridEnv \<Rightarrow> nat \<Rightarrow> nat \<Rightarrow> plc \<Rightarrow> bool list \<times> plc" where
  "evaluateColumn g k rows s =
     (let (columnPower, s1) = evaluateRows g k [0..<rows] s
      in (handleParallelPaths g k rows columnPower, s1))"

text \<open>One round of the column loop of \<^verbatim>\<open>evaluateLadder\<close>.\<close>

definition evaluateColumnStore :: "gridEnv \<Rightarrow> nat \<Rightarrow> plc \<Rightarrow> plc" where
  "evaluateColumnStore g k s =
     (let (columnHasPower, s1) = evaluateColumn g k (ROWS g) s
      in fold (\<lambda>r t. t\<lparr>wireStates_P := (wireStates_P t)((r, k) \<mapsto> columnHasPower ! r)\<rparr>)
           [0..<ROWS g] s1)"

text \<open>\<^verbatim>\<open>PLCSimulation.evaluateLadder\<close>.\<close>

definition evaluateLadder_P :: "gridEnv option \<Rightarrow> plc \<Rightarrow> plc" where
  "evaluateLadder_P G s =
     (case gridAvailable G of
        None \<Rightarrow> s
      | Some g \<Rightarrow> fold (evaluateColumnStore g) [0..<COLS g] s)"

subsection \<open>executeScanCycle\<close>

definition MAX_ITERATIONS :: nat where
  "MAX_ITERATIONS = 10"

text \<open>
  What one iteration does before it propagates: the wire and component states are
  emptied and every pin whose address starts with \<^verbatim>\<open>'O:'\<close> is set to \<^verbatim>\<open>false\<close>.
\<close>

definition clearForScan :: "plc \<Rightarrow> plc" where
  "clearForScan s =
     s\<lparr>wireStates_P := Map.empty,
       componentStates_P := Map.empty,
       pinStates_P := clearOutputs (pinStates_P s)\<rparr>"

text \<open>The body of the loop between saving the outputs and comparing them.\<close>

definition scanPass :: "gridEnv option \<Rightarrow> plc \<Rightarrow> plc" where
  "scanPass G s = evaluateLadder_P G (initializeBranchPower G (clearForScan s))"

text \<open>
  \<^verbatim>\<open>previousOutputStates\<close>: the entries of the pins whose address starts with
  \<^verbatim>\<open>'O:'\<close>, saved at the start of an iteration.
\<close>

definition saveOutputs :: "plc \<Rightarrow> (string \<times> bool) list" where
  "saveOutputs s = filter (\<lambda>(a, v). startsWith a ''O:'') (pinStates_P s)"

text \<open>
  The comparison at the end of an iteration: some key of \<^verbatim>\<open>pinStates\<close> that starts
  with \<^verbatim>\<open>'O:'\<close> has a value that is not (\<^verbatim>\<open>!==\<close>) the saved one; a key that was not
  saved compares with \<^verbatim>\<open>undefined\<close>.
\<close>

definition outputsChanged :: "(string \<times> bool) list \<Rightarrow> plc \<Rightarrow> bool" where
  "outputsChanged previousOutputStates s =
     list_ex (\<lambda>a. startsWith a ''O:'' \<and>
                  map_of (pinStates_P s) a \<noteq> map_of previousOutputStates a)
       (map fst (pinStates_P s))"

text \<open>
  The \<^verbatim>\<open>while (stateChanged && iterations < MAX_ITERATIONS)\<close> loop of
  \<^verbatim>\<open>executeScanCycle\<close>; it returns the number of iterations that the source logs
  and the state.
\<close>

function scanLoop :: "gridEnv option \<Rightarrow> nat \<Rightarrow> bool \<Rightarrow> plc \<Rightarrow> nat \<times> plc" where
  "scanLoop G iterations stateChanged s =
     (if stateChanged \<and> iterations < MAX_ITERATIONS
      then
        (let previousOutputStates = saveOutputs s;
             s1 = scanPass G s
         in scanLoop G (iterations + 1) (outputsChanged previousOutputStates s1) s1)
      else (iterations, s))"
  by pat_completeness auto
termination
  by (relation "measure (\<lambda>(G, iterations, stateChanged, s). MAX_ITERATIONS - iterations)") auto

text \<open>\<^verbatim>\<open>PLCSimulation.executeScanCycle\<close> (the redraw is the renderer's).\<close>

definition executeScanCycle :: "gridEnv option \<Rightarrow> plc \<Rightarrow> nat \<times> plc" where
  "executeScanCycle G s = scanLoop G 0 True s"

text \<open>\<^verbatim>\<open>PLCSimulation.isWireEnergized\<close> and \<^verbatim>\<open>PLCSimulation.isComponentActive\<close>.\<close>

definition isWireEnergized_P :: "plc \<Rightarrow> nat \<Rightarrow> nat \<Rightarrow> bool" where
  "isWireEnergized_P s r k = (case wireStates_P s (r, k) of Some v \<Rightarrow> v | None \<Rightarrow> False)"

definition isComponentActive_P :: "plc \<Rightarrow> nat \<Rightarrow> nat \<Rightarrow> bool" where
  "isComponentActive_P s r k =
     (case componentStates_P s (r, k) of Some v \<Rightarrow> v | None \<Rightarrow> False)"

section \<open>The first grid engine: class PLCSimulation of simulation.js, evaluateRung\<close>

text \<open>
  The keys of \<^verbatim>\<open>wireStates\<close> are \<^verbatim>\<open>`${row}-${col}-in`\<close>,
  \<^verbatim>\<open>`${row}-${col}-out`\<close> and \<^verbatim>\<open>`${row}-${col}-branch-start`\<close>.
\<close>

datatype position = PosIn | PosOut | PosBranchStart

record rungSim =
  isRunning_R :: bool
  pinStates_R :: "(string \<times> bool) list"
  wireStates_R :: "(nat \<times> nat \<times> position) \<rightharpoonup> bool"
  componentStates_R :: "(nat \<times> nat) \<rightharpoonup> bool"

text \<open>\<^verbatim>\<open>getPinState\<close> of this class.\<close>

definition getPinState_R :: "rungSim \<Rightarrow> string \<Rightarrow> bool" where
  "getPinState_R s a = (case map_of (pinStates_R s) a of Some v \<Rightarrow> v | None \<Rightarrow> False)"



text \<open>\<^verbatim>\<open>this.wireStates[`${cellKey}-out`] = powerState\<close>\<close>

definition setWireOut :: "nat \<Rightarrow> nat \<Rightarrow> bool \<Rightarrow> rungSim \<Rightarrow> rungSim" where
  "setWireOut r k v s = s\<lparr>wireStates_R := (wireStates_R s)((r, k, PosOut) \<mapsto> v)\<rparr>"





section \<open>Example diagrams and pin tables\<close>

text \<open>A component as the editor places it, with an empty label.\<close>

definition part :: "kind \<Rightarrow> string \<Rightarrow> int \<Rightarrow> component" where
  "part t a k = \<lparr>ctype = t, address = a, label = [], col = k\<rparr>"

text \<open>The main branch as \<^verbatim>\<open>LadderStructure.initialize\<close> creates it, with components.\<close>

definition mainBranch :: "component list \<Rightarrow> branch" where
  "mainBranch cs =
     \<lparr>branch_id = 0, row = 0, start_col = 0, end_col = 9, parent_branch_id = None,
      connection_col = None, components = cs\<rparr>"

text \<open>A branch as \<^verbatim>\<open>LadderStructure.createBranch\<close> creates it: id, row, parent id, connection column.\<close>

definition childBranch :: "int \<Rightarrow> int \<Rightarrow> int \<Rightarrow> int \<Rightarrow> component list \<Rightarrow> branch" where
  "childBranch i r pid k cs =
     \<lparr>branch_id = i, row = r, start_col = 0, end_col = 9, parent_branch_id = Some pid,
      connection_col = Some k, components = cs\<rparr>"

definition oneRung :: "branch list \<Rightarrow> ladderStructure" where
  "oneRung bs = [\<lparr>rung_id = 0, branches = bs\<rparr>]"

text \<open>An engine state with the given pin table and no scratch state.\<close>

definition pinTable :: "bool \<Rightarrow> (string \<times> bool) list \<Rightarrow> sim" where
  "pinTable running ps =
     \<lparr>isRunning = running, pinStates = ps, branchPowerStates = Map.empty,
      componentStates = Map.empty\<rparr>"

text \<open>Two NO contacts on \<open>A\<close> and \<open>B\<close> in series before a coil on \<open>C\<close>.\<close>

definition seriesLadder :: "string \<Rightarrow> string \<Rightarrow> string \<Rightarrow> ladderStructure" where
  "seriesLadder A B C = oneRung [mainBranch [part NO A 1, part NO B 2, part OUT C 5]]"

text \<open>One NO contact on an input before a coil on an output.\<close>

definition feedLadder :: ladderStructure where
  "feedLadder = oneRung [mainBranch [part NO ''I:0/0'' 1, part OUT ''O:0/0'' 5]]"

text \<open>A coil bound to an input address.\<close>

definition coilOnInput :: ladderStructure where
  "coilOnInput = oneRung [mainBranch [part OUT ''I:0/0'' 1]]"

text \<open>A NC contact and a coil placed on the main rung, no pin assigned to either.\<close>

definition unassigned :: ladderStructure where
  "unassigned = oneRung [mainBranch [part NC [] 1, part OUT [] 2]]"

text \<open>
  A forest of three branches with a coil each: the main rung, a child of the main
  rung in row 2, and a child of that child in row 1.
\<close>

definition risingForest :: ladderStructure where
  "risingForest = oneRung
     [mainBranch [part OUT ''O:0/0'' 5],
      childBranch 1 2 0 0 [part OUT ''O:0/1'' 5],
      childBranch 2 1 1 0 [part OUT ''O:0/2'' 5]]"

text \<open>A branch whose parent id 7 is the id of no branch.\<close>

definition danglingLadder :: ladderStructure where
  "danglingLadder = oneRung
     [mainBranch [part OUT ''O:0/0'' 5], childBranch 1 1 7 0 [part OUT ''O:0/1'' 5]]"

text \<open>A branch that is its own parent.\<close>

definition selfLoop :: ladderStructure where
  "selfLoop = oneRung
     [mainBranch [part OUT ''O:0/0'' 5], childBranch 1 1 1 0 [part OUT ''O:0/1'' 5]]"








section \<open>Notions of the specification\<close>



text \<open>
  The comparison that ends iteration \<open>k\<close> of a scan cycle started in \<open>s\<close> finds a
  changed output: the state after \<open>k\<close> passes against the outputs saved after \<open>k - 1\<close>.
\<close>

definition changedAt :: "gridEnv option \<Rightarrow> plc \<Rightarrow> nat \<Rightarrow> bool" where
  "changedAt G s k =
     outputsChanged (saveOutputs ((scanPass G ^^ (k - 1)) s)) ((scanPass G ^^ k) s)"

section \<open>Notions of the proofs\<close>

text \<open>Every coil of the diagram is bound to an address that starts with \<^verbatim>\<open>'O:'\<close>.\<close>

definition coilsOnOutputs :: "ladderStructure \<Rightarrow> bool" where
  "coilsOnOutputs L =
     list_all (\<lambda>b. list_all (\<lambda>c. ctype c = OUT \<longrightarrow> startsWith (address c) ''O:'') (components b))
       (getAllBranches L)"

text \<open>
  Two states of the branch engine answer \<^verbatim>\<open>getPinState\<close>, \<^verbatim>\<open>isWireEnergized\<close> and
  \<^verbatim>\<open>isComponentActive\<close> alike; the pin tables may differ in entries that are absent in
  one and false in the other.
\<close>

definition sameView :: "sim \<Rightarrow> sim \<Rightarrow> bool" where
  "sameView s t =
     (isRunning s = isRunning t \<and> getPinState s = getPinState t \<and>
      branchPowerStates s = branchPowerStates t \<and> componentStates s = componentStates t)"

text \<open>The same for two states of the grid engine.\<close>

definition sameView_P :: "plc \<Rightarrow> plc \<Rightarrow> bool" where
  "sameView_P s t =
     (getPinState_P s = getPinState_P t \<and>
      wireStates_P s = wireStates_P t \<and> componentStates_P s = componentStates_P t)"

text \<open>Two states of the grid engine agree on every pin that is not an output.\<close>

definition sameInputs :: "plc \<Rightarrow> plc \<Rightarrow> bool" where
  "sameInputs s t = (\<forall>a. \<not> startsWith a ''O:'' \<longrightarrow> getPinState_P s a = getPinState_P t a)"

text \<open>One round of the row loop of \<^verbatim>\<open>evaluateColumn\<close>, as \<open>evaluateRows\<close> runs it.\<close>

definition evaluateRow :: "gridEnv \<Rightarrow> nat \<Rightarrow> nat \<Rightarrow> plc \<Rightarrow> bool \<times> plc" where
  "evaluateRow g k r s =
     (if (if k = 0 then (if 0 < r then isConnectedToLeftRail g r k else True)
          else (wireStates_P s (r, k - 1) = Some True) \<or> checkVerticalPower g r k s)
      then evaluateCell g r k s
      else (False, s))"

text \<open>The loop of \<^verbatim>\<open>evaluateLadder\<close> that stores the power of a column.\<close>

definition storeColumn :: "nat \<Rightarrow> bool list \<Rightarrow> nat list \<Rightarrow> plc \<Rightarrow> plc" where
  "storeColumn k cp rs s =
     fold (\<lambda>r t. t\<lparr>wireStates_P := (wireStates_P t)((r, k) \<mapsto> cp ! r)\<rparr>) rs s"

section \<open>Properties of the branch engine\<close>

lemmas example_defs =
  part_def mainBranch_def childBranch_def oneRung_def pinTable_def seriesLadder_def feedLadder_def
  coilOnInput_def unassigned_def risingForest_def danglingLadder_def selfLoop_def


lemmas engine_defs =
  executeScan_def evaluateLadder_def evaluationOrder_def evaluateBranch_def incomingPower_def
  evaluateComponent_def Let_def getPinState_def clearOutputs_def startsWith_def
  branchCompare_def isComponentActive_def isWireEnergized_def toggleInput_def

subsection \<open>Pins are written by powered coils only\<close>

lemma getPinState_update:
  "getPinState (s\<lparr>pinStates := AList.update a v (pinStates s)\<rparr>) x =
     (if x = a then v else getPinState s x)"
  by (simp add: getPinState_def update_conv')

lemma getPinState_scratch [simp]:
  "getPinState (s\<lparr>branchPowerStates := m\<rparr>) = getPinState s"
  "getPinState (s\<lparr>componentStates := n\<rparr>) = getPinState s"
  by (simp_all add: getPinState_def fun_eq_iff)

lemma map_of_clearOutputs:
  "map_of (clearOutputs ps) a =
     (case map_of ps a of
        None \<Rightarrow> None
      | Some v \<Rightarrow> Some (if startsWith a ''O:'' then False else v))"
  by (induction ps) (auto simp: clearOutputs_def)


lemma evaluateComponent_pins:
  "getPinState (snd (evaluateComponent c p s)) a =
     (getPinState s a \<or> (ctype c = OUT \<and> address c = a \<and> p))"
  by (auto simp: evaluateComponent_def Let_def getPinState_update split: kind.splits)

lemma evaluateComponent_scratch:
  "branchPowerStates (snd (evaluateComponent c p s)) = branchPowerStates s"
  "componentStates (snd (evaluateComponent c p s)) = componentStates s"
  "isRunning (snd (evaluateComponent c p s)) = isRunning s"
  by (auto simp: evaluateComponent_def Let_def split: kind.splits)

lemma componentStep_pins:
  "getPinState (snd (componentStep b c p s)) a =
     (getPinState s a \<or> (ctype c = OUT \<and> address c = a \<and> p))"
proof -
  define s1 where "s1 = s\<lparr>branchPowerStates :=
                  (branchPowerStates s)((branch_id b, Some (col c)) \<mapsto> p)\<rparr>"
  obtain res s2 where eq: "evaluateComponent c p s1 = (res, s2)"
    by (cases "evaluateComponent c p s1")
  have "getPinState s2 a = (getPinState s1 a \<or> (ctype c = OUT \<and> address c = a \<and> p))"
    using evaluateComponent_pins [of c p s1 a] eq by simp
  then show ?thesis
    using eq unfolding s1_def by (simp add: componentStep_def Let_def)
qed

lemma evaluateComponents_Cons:
  "evaluateComponents b (c # cs) p s =
     evaluateComponents b cs (fst (componentStep b c p s)) (snd (componentStep b c p s))"
  by (simp add: componentStep_def Let_def split: prod.splits)

lemma coilPowered_simps [simp]:
  "coilPowered [] a = False"
  "coilPowered ((c, p) # xs) a = ((ctype c = OUT \<and> address c = a \<and> p) \<or> coilPowered xs a)"
  "coilPowered (xs @ ys) a = (coilPowered xs a \<or> coilPowered ys a)"
  by (auto simp: coilPowered_def)

lemma evaluateComponents_pins:
  "getPinState (snd (evaluateComponents b cs p s)) a =
     (getPinState s a \<or> coilPowered (componentCalls b cs p s) a)"
proof (induction cs arbitrary: p s)
  case Nil
  show ?case by simp
next
  case (Cons c cs)
  show ?case
    unfolding evaluateComponents_Cons componentCalls.simps
    by (simp add: Cons.IH componentStep_pins)
qed

lemma evaluateBranch_pins:
  "getPinState (evaluateBranch L b s) a = (getPinState s a \<or> coilPowered (branchCalls L b s) a)"
proof -
  define s1 where "s1 = s\<lparr>branchPowerStates :=
            (branchPowerStates s)((branch_id b, Some (start_col b)) \<mapsto> incomingPower L b s)\<rparr>"
  obtain p' s2 where eq: "evaluateComponents b (components b) (incomingPower L b s) s1 = (p', s2)"
    by (cases "evaluateComponents b (components b) (incomingPower L b s) s1")
  have "getPinState s2 a =
      (getPinState s1 a \<or> coilPowered (componentCalls b (components b) (incomingPower L b s) s1) a)"
    using evaluateComponents_pins [of b "components b" "incomingPower L b s" s1 a] eq by simp
  then show ?thesis
    using eq unfolding s1_def by (simp add: evaluateBranch_def branchCalls_def Let_def)
qed

lemma evaluateBranches_pins:
  "getPinState (evaluateBranches L bs s) a =
     (getPinState s a \<or> coilPowered (ladderCalls L bs s) a)"
  by (induction bs arbitrary: s) (auto simp: evaluateBranch_pins)

lemma executeScan_pins:
  "getPinState (executeScan W s) a =
     ((\<not> startsWith a ''O:'' \<and> getPinState s a) \<or> coilPowered (scanCalls W s) a)"
proof (cases W)
  case None
  then show ?thesis
    by (simp add: executeScan_def evaluateLadder_def scanCalls_def getPinState_def
        map_of_clearOutputs split: option.splits)
next
  case (Some L)
  have "getPinState (s\<lparr>branchPowerStates := Map.empty, componentStates := Map.empty,
          pinStates := clearOutputs (pinStates s)\<rparr>) a = (\<not> startsWith a ''O:'' \<and> getPinState s a)"
    by (simp add: getPinState_def map_of_clearOutputs split: option.splits)
  with Some show ?thesis
    by (simp add: executeScan_def evaluateLadder_def scanCalls_def evaluateBranches_pins)
qed

subsection \<open>Series contacts\<close>

text \<open>
  Claim C4, amended. For a diagram whose only branch is a root branch with two NO
  contacts on addresses A and B followed by a coil on an address C that starts with
  \<^verbatim>\<open>'O:'\<close>, where neither A nor B starts with \<^verbatim>\<open>'O:'\<close>: after one scan the pin C is
  true if and only if the pins A and B were both true when the scan started.
\<close>

theorem C4_series_and:
  assumes "getAllBranches L = [b]" and "parent_branch_id b = None"
    and "components b = [c1, c2, c3]"
    and "ctype c1 = NO" and "ctype c2 = NO" and "ctype c3 = OUT"
    and "startsWith (address c3) ''O:''"
    and "\<not> startsWith (address c1) ''O:''" and "\<not> startsWith (address c2) ''O:''"
  shows "getPinState (executeScan (Some L) s) (address c3) =
           (getPinState s (address c1) \<and> getPinState s (address c2))"
proof -
  have calls: "scanCalls (Some L) s =
      [(c1, True), (c2, getPinState s (address c1)),
       (c3, getPinState s (address c1) \<and> getPinState s (address c2))]"
    using assms
    by (simp add: scanCalls_def evaluationOrder_def branchCalls_def incomingPower_def
        componentStep_def evaluateComponent_def Let_def)
       (simp add: getPinState_def map_of_clearOutputs split: option.splits)
  show ?thesis
    using assms by (simp add: executeScan_pins calls)
qed

theorem C4_series_and_witness:
  "getPinState
     (executeScan (Some (seriesLadder ''I:0/0'' ''I:0/1'' ''O:0/0''))
        (pinTable False [(''I:0/0'', True), (''I:0/1'', True), (''O:0/0'', False)]))
     ''O:0/0''"
  using C4_series_and [of "seriesLadder ''I:0/0'' ''I:0/1'' ''O:0/0''"
      "mainBranch [part NO ''I:0/0'' 1, part NO ''I:0/1'' 2, part OUT ''O:0/0'' 5]"
      "part NO ''I:0/0'' 1" "part NO ''I:0/1'' 2" "part OUT ''O:0/0'' 5"
      "pinTable False [(''I:0/0'', True), (''I:0/1'', True), (''O:0/0'', False)]"]
  by (simp add: example_defs startsWith_def getPinState_def)

text \<open>
  With the first contact on the output address \<^verbatim>\<open>'O:0/1'\<close>, true at the start of the
  scan like the input of the second contact, the coil's pin is false after the scan:
  the scan clears \<^verbatim>\<open>'O:0/1'\<close> before it reads it.
\<close>

theorem C4_series_and_counterexample:
  "getPinState (pinTable False [(''O:0/1'', True), (''I:0/0'', True), (''O:0/0'', False)]) ''O:0/1''
   \<and> getPinState (pinTable False [(''O:0/1'', True), (''I:0/0'', True), (''O:0/0'', False)]) ''I:0/0''
   \<and> \<not> getPinState
         (executeScan (Some (seriesLadder ''O:0/1'' ''I:0/0'' ''O:0/0''))
            (pinTable False [(''O:0/1'', True), (''I:0/0'', True), (''O:0/0'', False)]))
         ''O:0/0''"
  by (simp add: example_defs engine_defs)

subsection \<open>Components without an address\<close>

text \<open>
  Claim C9, amended. A component whose address is the empty string is evaluated like
  any other, with the pin-table entry of the empty string as its pin (false when there
  is none): a NO contact gives powerAfter = powerBefore AND pin and isActive = pin, so it
  blocks power when the pin is false; a NC contact gives powerAfter = powerBefore AND NOT
  pin and isActive = NOT pin; a coil gives powerAfter = powerBefore and isActive =
  powerBefore; a component of any other type gives powerAfter = powerBefore and
  isActive = false. The evaluation returns a result in every case.
\<close>

theorem C9_unset_component:
  assumes "address c = []"
  shows "fst (evaluateComponent c powerBefore s) =
     (case ctype c of
        NO \<Rightarrow> \<lparr>powerAfter = powerBefore \<and> getPinState s [], isActive = getPinState s []\<rparr>
      | NC \<Rightarrow> \<lparr>powerAfter = powerBefore \<and> \<not> getPinState s [],
                isActive = \<not> getPinState s []\<rparr>
      | OUT \<Rightarrow> \<lparr>powerAfter = powerBefore, isActive = powerBefore\<rparr>
      | _ \<Rightarrow> \<lparr>powerAfter = powerBefore, isActive = False\<rparr>)"
  using assms by (simp add: evaluateComponent_def Let_def split: kind.splits)

theorem C9_unset_component_witness:
  "fst (evaluateComponent (part NC [] 1) True (pinTable False [])) =
     \<lparr>powerAfter = True, isActive = True\<rparr>"
  using C9_unset_component [of "part NC [] 1" True "pinTable False []"]
  by (simp add: part_def pinTable_def getPinState_def)

text \<open>
  A NO contact without address, with power before it and an empty pin table, has no
  power after it.
\<close>

theorem C9_unset_component_counterexample:
  "address (part NO [] 1) = [] \<and>
   powerAfter (fst (evaluateComponent (part NO [] 1) True (pinTable False []))) \<noteq> True"
  by (simp add: part_def pinTable_def evaluateComponent_def getPinState_def)

subsection \<open>Toggling a pin\<close>

text \<open>
  Claim C10, amended. \<^verbatim>\<open>toggleInput\<close> on an address that starts with neither
  \<^verbatim>\<open>'I:'\<close> nor \<^verbatim>\<open>'O:'\<close> returns false and leaves the state unchanged. On an address
  that starts with \<^verbatim>\<open>'I:'\<close> or with \<^verbatim>\<open>'O:'\<close>, while the simulation is not running,
  it negates the pin, returns the new value, and changes only that entry of the pin
  table. While the simulation is running it runs a scan on the toggled table and
  returns the value the pin has after that scan.
\<close>

theorem C10_toggleInput:
  "(\<not> startsWith a ''I:'' \<and> \<not> startsWith a ''O:'' \<longrightarrow> toggleInput W a s = (False, s)) \<and>
   ((startsWith a ''I:'' \<or> startsWith a ''O:'') \<and> \<not> isRunning s \<longrightarrow>
      fst (toggleInput W a s) = (\<not> getPinState s a) \<and>
      snd (toggleInput W a s) =
        s\<lparr>pinStates := AList.update a (\<not> getPinState s a) (pinStates s)\<rparr> \<and>
      map_of (pinStates (snd (toggleInput W a s))) =
        (map_of (pinStates s))(a \<mapsto> \<not> getPinState s a)) \<and>
   ((startsWith a ''I:'' \<or> startsWith a ''O:'') \<and> isRunning s \<longrightarrow>
      snd (toggleInput W a s) =
        executeScan W (s\<lparr>pinStates := AList.update a (\<not> getPinState s a) (pinStates s)\<rparr>) \<and>
      fst (toggleInput W a s) = getPinState (snd (toggleInput W a s)) a)"
  by (simp add: toggleInput_def Let_def update_conv' getPinState_update)

theorem C10_toggleInput_witness:
  "toggleInput (Some feedLadder) ''X:0'' (pinTable True [(''I:0/0'', False)]) =
     (False, pinTable True [(''I:0/0'', False)]) \<and>
   fst (toggleInput (Some feedLadder) ''O:0/0'' (pinTable False [(''O:0/0'', False)])) \<and>
   \<not> fst (toggleInput (Some feedLadder) ''O:0/0'' (pinTable True [(''O:0/0'', False)]))"
  using C10_toggleInput [of "''X:0''" "Some feedLadder" "pinTable True [(''I:0/0'', False)]"]
    C10_toggleInput [of "''O:0/0''" "Some feedLadder" "pinTable False [(''O:0/0'', False)]"]
    C10_toggleInput [of "''O:0/0''" "Some feedLadder" "pinTable True [(''O:0/0'', False)]"]
  by (simp add: example_defs engine_defs)

text \<open>
  While the simulation runs, toggling the input \<^verbatim>\<open>'I:0/0'\<close> of a contact before a
  coil on \<^verbatim>\<open>'O:0/0'\<close> changes the entry of \<^verbatim>\<open>'O:0/0'\<close> too.
\<close>

theorem C10_toggleInput_counterexample:
  "startsWith ''I:0/0'' ''I:'' \<and> ''O:0/0'' \<noteq> ''I:0/0'' \<and>
   map_of (pinStates (snd (toggleInput (Some feedLadder) ''I:0/0''
      (pinTable True [(''I:0/0'', False), (''O:0/0'', False)])))) ''O:0/0''
   \<noteq> map_of (pinStates (pinTable True [(''I:0/0'', False), (''O:0/0'', False)])) ''O:0/0''"
  by (simp add: example_defs engine_defs)

subsection \<open>Coils bound to one address\<close>



lemma lastWrite_simps [simp]:
  "lastWrite [] a v = v"
  "lastWrite ((x, p) # ws) a v = lastWrite ws a (if x = a then p else v)"
  "lastWrite (xs @ ys) a v = lastWrite ys a (lastWrite xs a v)"
  by (simp_all add: lastWrite_def)

lemma coilWrites_simps [simp]:
  "coilWrites [] = []"
  "coilWrites ((c, p) # xs) = (if ctype c = OUT then [(address c, p)] else []) @ coilWrites xs"
  "coilWrites (xs @ ys) = coilWrites xs @ coilWrites ys"
  by (simp_all add: coilWrites_def)

lemma getPinState_S_scratch [simp]:
  "getPinState_S (s\<lparr>wireStates_S := m\<rparr>) = getPinState_S s"
  "getPinState_S (s\<lparr>componentStates_S := n\<rparr>) = getPinState_S s"
  by (simp_all add: getPinState_S_def fun_eq_iff)



lemma markWires_pins [simp]: "getPinState_S (markWires r lo hi p s) = getPinState_S s"
proof -
  have "getPinState_S (fold (\<lambda>k t. t\<lparr>wireStates_S := (wireStates_S t)((r, k) \<mapsto> True)\<rparr>) ks s)
          = getPinState_S s" for ks
    by (induction ks arbitrary: s) simp_all
  then show ?thesis by (simp add: markWires_def)
qed








lemma getPinState_R_scratch [simp]:
  "getPinState_R (s\<lparr>wireStates_R := m\<rparr>) = getPinState_R s"
  "getPinState_R (s\<lparr>componentStates_R := n\<rparr>) = getPinState_R s"
  "getPinState_R (setWireOut r k v s) = getPinState_R s"
  by (simp_all add: getPinState_R_def fun_eq_iff setWireOut_def)

lemma getPinState_R_update:
  "getPinState_R (s\<lparr>pinStates_R := AList.update a v (pinStates_R s)\<rparr>) x =
     (if x = a then v else getPinState_R s x)"
  by (simp add: getPinState_R_def update_conv')








subsection \<open>Coils bound to addresses that are not outputs\<close>

text \<open>
  Claim C3 at a failing input: a scan of the branch engine over a powered coil bound to
  the input address \<^verbatim>\<open>'I:0/0'\<close> changes that input pin from false to true.
\<close>

theorem C3_coil_writes_input:
  "\<not> getPinState (pinTable True [(''I:0/0'', False)]) ''I:0/0'' \<and>
   getPinState (executeScan (Some coilOnInput) (pinTable True [(''I:0/0'', False)])) ''I:0/0''"
  by (simp add: example_defs engine_defs)

text \<open>
  Claim C5 at a failing input: with a NC contact and a coil that have no pin assigned,
  a second scan without any change in between gives other answers than the first. The
  contact is active and the wire behind it is energized after the first scan and not
  after the second, because the coil wrote the pin of the empty address, which no scan
  clears.
\<close>

theorem C5_second_scan_differs:
  "isComponentActive
     (executeScan (Some unassigned) (pinTable True [(''I:0/0'', False), (''O:0/0'', False)])) 0 1 \<and>
   \<not> isComponentActive
       (executeScan (Some unassigned)
          (executeScan (Some unassigned) (pinTable True [(''I:0/0'', False), (''O:0/0'', False)])))
       0 1 \<and>
   isWireEnergized (Some unassigned)
     (executeScan (Some unassigned) (pinTable True [(''I:0/0'', False), (''O:0/0'', False)])) 0 2 \<and>
   \<not> isWireEnergized (Some unassigned)
       (executeScan (Some unassigned)
          (executeScan (Some unassigned) (pinTable True [(''I:0/0'', False), (''O:0/0'', False)])))
       0 2 \<and>
   map (getPinState
          (executeScan (Some unassigned) (pinTable True [(''I:0/0'', False), (''O:0/0'', False)])))
     [''I:0/0'', ''O:0/0''] =
   map (getPinState (pinTable True [(''I:0/0'', False), (''O:0/0'', False)])) [''I:0/0'', ''O:0/0'']"
  by (simp add: example_defs engine_defs)

subsection \<open>The order of evaluation\<close>

lemma set_insertBy [simp]: "set (insertBy cmp x xs) = insert x (set xs)"
  by (induction xs) auto

lemma set_sortBy [simp]: "set (sortBy cmp xs) = set xs"
  by (induction xs) auto

lemma length_insertBy [simp]: "length (insertBy cmp x xs) = Suc (length xs)"
  by (induction xs) auto

lemma length_sortBy [simp]: "length (sortBy cmp xs) = length xs"
  by (induction xs) auto

lemma branchCompare_total: "branchCompare a b \<le> 0 \<or> branchCompare b a \<le> 0"
  by (auto simp: branchCompare_def)

lemma branchCompare_trans:
  "branchCompare a b \<le> 0 \<Longrightarrow> branchCompare b c \<le> 0 \<Longrightarrow> branchCompare a c \<le> 0"
  by (auto simp: branchCompare_def split: if_splits)

lemma sorted_insertBy:
  "sorted_wrt (\<lambda>a b. branchCompare a b \<le> 0) xs \<Longrightarrow>
     sorted_wrt (\<lambda>a b. branchCompare a b \<le> 0) (insertBy branchCompare x xs)"
proof (induction xs)
  case Nil
  then show ?case by simp
next
  case (Cons y ys)
  show ?case
  proof (cases "branchCompare x y \<le> 0")
    case True
    with Cons.prems show ?thesis
      by (auto intro: branchCompare_trans)
  next
    case False
    then have "branchCompare y x \<le> 0" using branchCompare_total [of x y] by simp
    with False Cons show ?thesis by auto
  qed
qed

lemma sorted_sortBy: "sorted_wrt (\<lambda>a b. branchCompare a b \<le> 0) (sortBy branchCompare xs)"
  by (induction xs) (simp_all add: sorted_insertBy)



text \<open>
  The order of evaluation is sorted by the comparator: no branch with a parent comes
  before a branch without one, and branches with a parent come in ascending row. A child
  of a root is therefore evaluated after its parent; the rows alone decide below that.
\<close>

lemma evaluationOrder_sorted:
  "sorted_wrt (\<lambda>a b. branchCompare a b \<le> 0) (evaluationOrder L)"
  by (simp add: evaluationOrder_def sorted_sortBy)

lemma evaluationOrder_roots_first:
  assumes "evaluationOrder L = us @ b # vs @ p # ws"
    and "parent_branch_id p = None"
  shows "parent_branch_id b = None"
proof -
  have "sorted_wrt (\<lambda>a b. branchCompare a b \<le> 0) (us @ b # vs @ p # ws)"
    using evaluationOrder_sorted [of L] assms(1) by simp
  then have "branchCompare b p \<le> 0"
    by (simp add: sorted_wrt_append)
  with assms(2) show ?thesis
    by (simp add: branchCompare_def split: if_splits)
qed

lemma evaluationOrder_rows:
  assumes "evaluationOrder L = us @ b # vs @ c # ws"
    and "parent_branch_id b \<noteq> None"
  shows "parent_branch_id c \<noteq> None \<and> row b \<le> row c"
proof -
  have "sorted_wrt (\<lambda>a b. branchCompare a b \<le> 0) (us @ b # vs @ c # ws)"
    using evaluationOrder_sorted [of L] assms(1) by simp
  then have "branchCompare b c \<le> 0"
    by (simp add: sorted_wrt_append)
  with assms(2) show ?thesis
    by (auto simp: branchCompare_def split: if_splits)
qed

text \<open>
  Claim C7 at a failing input: in a forest where the child of the main rung is in row 2
  and its own child in row 1, the order of evaluation is main rung, grandchild, child.
  The grandchild is evaluated before its parent, finds no power recorded for it, and
  its coil stays off although the coils of the main rung and of the child are on.
\<close>

theorem C7_grandchild_before_parent:
  "map branch_id (evaluationOrder risingForest) = [0, 2, 1] \<and>
   map parent_branch_id (evaluationOrder risingForest) = [None, Some 1, Some 0] \<and>
   map (getPinState (executeScan (Some risingForest) (pinTable True [])))
     [''O:0/0'', ''O:0/1'', ''O:0/2''] = [True, True, False]"
  by (simp add: example_defs engine_defs)

subsection \<open>Branches without a live parent\<close>

lemma componentStep_unfold:
  "componentStep b c p s =
     (powerAfter (fst (evaluateComponent c p s)),
      (snd (evaluateComponent c p s))
        \<lparr>componentStates := (componentStates s)((row b, col c) \<mapsto> isActive (fst (evaluateComponent c p s))),
         branchPowerStates := (branchPowerStates s)((branch_id b, Some (col c)) \<mapsto> p,
            (branch_id b, Some (col c + 1)) \<mapsto> powerAfter (fst (evaluateComponent c p s)))\<rparr>)"
  by (auto simp: componentStep_def evaluateComponent_def Let_def split: kind.splits)






lemma evaluateBranch_unfold:
  "evaluateBranch L b s =
     (snd (evaluateComponents b (components b) (incomingPower L b s)
          (s\<lparr>branchPowerStates :=
            (branchPowerStates s)((branch_id b, Some (start_col b)) \<mapsto> incomingPower L b s)\<rparr>)))
     \<lparr>branchPowerStates :=
        (branchPowerStates (snd (evaluateComponents b (components b) (incomingPower L b s)
          (s\<lparr>branchPowerStates :=
            (branchPowerStates s)((branch_id b, Some (start_col b)) \<mapsto> incomingPower L b s)\<rparr>))))
        ((branch_id b, Some (end_col b)) \<mapsto>
           fst (evaluateComponents b (components b) (incomingPower L b s)
          (s\<lparr>branchPowerStates :=
            (branchPowerStates s)((branch_id b, Some (start_col b)) \<mapsto> incomingPower L b s)\<rparr>)))\<rparr>"
  by (simp add: evaluateBranch_def Let_def split: prod.splits)







lemma evaluateComponent_unpowered:
  "snd (evaluateComponent c False s) = s"
  "powerAfter (fst (evaluateComponent c False s)) = False"
  by (cases "ctype c"; simp add: evaluateComponent_def Let_def)+

lemma evaluateComponents_unpowered:
  "fst (evaluateComponents b cs False s) = False \<and>
   pinStates (snd (evaluateComponents b cs False s)) = pinStates s \<and>
   (\<forall>x\<in>set (componentCalls b cs False s). \<not> snd x) \<and>
   (\<forall>k. branchPowerStates (snd (evaluateComponents b cs False s)) k = branchPowerStates s k \<or>
        branchPowerStates (snd (evaluateComponents b cs False s)) k = Some False)"
proof (induction cs arbitrary: s)
  case Nil
  show ?case by simp
next
  case (Cons c cs)
  have st: "componentStep b c False s =
      (False, s\<lparr>componentStates :=
                  (componentStates s)((row b, col c) \<mapsto> isActive (fst (evaluateComponent c False s))),
               branchPowerStates :=
                  (branchPowerStates s)((branch_id b, Some (col c)) \<mapsto> False,
                                        (branch_id b, Some (col c + 1)) \<mapsto> False)\<rparr>)"
    by (simp add: componentStep_unfold evaluateComponent_unpowered)
  show ?case
    unfolding evaluateComponents_Cons componentCalls.simps st fst_conv snd_conv
    using Cons.IH [of "s\<lparr>componentStates :=
                  (componentStates s)((row b, col c) \<mapsto> isActive (fst (evaluateComponent c False s))),
               branchPowerStates :=
                  (branchPowerStates s)((branch_id b, Some (col c)) \<mapsto> False,
                                        (branch_id b, Some (col c + 1)) \<mapsto> False)\<rparr>"]
    by (auto split: if_splits)
qed


text \<open>
  Claim C8, amended. A branch whose \<^verbatim>\<open>parent_branch_id\<close> resolves to no branch is not
  an error: it is evaluated without incoming power. Its evaluation leaves the pin table
  unchanged, calls every one of its components without power, and records no power
  other than false; the scan returns normally.
\<close>

theorem C8_dangling_parent:
  assumes "parent_branch_id b = Some pid" and "findBranchById L pid = None"
  shows "\<not> incomingPower L b s \<and>
         pinStates (evaluateBranch L b s) = pinStates s \<and>
         (\<forall>x\<in>set (branchCalls L b s). \<not> snd x) \<and>
         (\<forall>k. branchPowerStates (evaluateBranch L b s) k = branchPowerStates s k \<or>
              branchPowerStates (evaluateBranch L b s) k = Some False) \<and>
         scan W s = Inr (executeScan W s)"
proof -
  have p: "incomingPower L b s = False"
    using assms by (simp add: incomingPower_def)
  let ?s1 = "s\<lparr>branchPowerStates :=
                (branchPowerStates s)((branch_id b, Some (start_col b)) \<mapsto> False)\<rparr>"
  note u = evaluateComponents_unpowered [of b "components b" ?s1]
  have "\<forall>k. branchPowerStates (evaluateBranch L b s) k = branchPowerStates s k \<or>
              branchPowerStates (evaluateBranch L b s) k = Some False"
    using u by (auto simp: evaluateBranch_unfold p split: if_splits)
  moreover have "pinStates (evaluateBranch L b s) = pinStates s"
    using u by (simp add: evaluateBranch_unfold p)
  moreover have "\<forall>x\<in>set (branchCalls L b s). \<not> snd x"
    using u by (simp add: branchCalls_def p)
  ultimately show ?thesis
    using p by (simp add: scan_def)
qed

theorem C8_dangling_parent_witness:
  "parent_branch_id (childBranch 1 1 7 0 [part OUT ''O:0/1'' 5]) = Some 7 \<and>
   findBranchById danglingLadder 7 = None \<and>
   \<not> incomingPower danglingLadder (childBranch 1 1 7 0 [part OUT ''O:0/1'' 5])
       (pinTable True [(''O:0/1'', False)]) \<and>
   pinStates (evaluateBranch danglingLadder (childBranch 1 1 7 0 [part OUT ''O:0/1'' 5])
       (pinTable True [(''O:0/1'', False)])) = [(''O:0/1'', False)]"
  using C8_dangling_parent [of "childBranch 1 1 7 0 [part OUT ''O:0/1'' 5]" 7 danglingLadder
      "pinTable True [(''O:0/1'', False)]" None]
  by (simp add: example_defs)

text \<open>
  The scan of a diagram with a branch whose parent id names no branch does not fail: it
  returns a state in which the coil of the main rung is on and the coil of that branch
  is off.
\<close>

theorem C8_dangling_parent_counterexample:
  "parent_branch_id (childBranch 1 1 7 0 [part OUT ''O:0/1'' 5]) = Some 7 \<and>
   childBranch 1 1 7 0 [part OUT ''O:0/1'' 5] \<in> set (getAllBranches danglingLadder) \<and>
   findBranchById danglingLadder 7 = None \<and>
   scan (Some danglingLadder) (pinTable True []) \<noteq> Inl DanglingParentError \<and>
   map (getPinState (executeScan (Some danglingLadder) (pinTable True [])))
     [''O:0/0'', ''O:0/1''] = [True, False]"
  by (simp add: scan_def example_defs engine_defs)




subsection \<open>A second scan when every coil is bound to an output\<close>

lemma evaluateComponent_view:
  assumes "sameView s t"
  shows "fst (evaluateComponent c p s) = fst (evaluateComponent c p t)"
    and "sameView (snd (evaluateComponent c p s)) (snd (evaluateComponent c p t))"
proof -
  from assms have g: "getPinState s = getPinState t" by (simp add: sameView_def)
  show "fst (evaluateComponent c p s) = fst (evaluateComponent c p t)"
    by (cases "ctype c") (simp_all add: evaluateComponent_def Let_def g)
  show "sameView (snd (evaluateComponent c p s)) (snd (evaluateComponent c p t))"
    using assms
    by (simp add: sameView_def evaluateComponent_scratch fun_eq_iff evaluateComponent_pins)
qed

lemma componentStep_view:
  assumes "sameView s t"
  shows "fst (componentStep b c p s) = fst (componentStep b c p t)"
    and "sameView (snd (componentStep b c p s)) (snd (componentStep b c p t))"
proof -
  note v = evaluateComponent_view [OF assms, of c p]
  show "fst (componentStep b c p s) = fst (componentStep b c p t)"
    by (simp add: componentStep_unfold v(1))
  show "sameView (snd (componentStep b c p s)) (snd (componentStep b c p t))"
    using v(2) assms by (simp add: componentStep_unfold v(1) sameView_def)
qed

lemma evaluateComponents_view:
  "sameView s t \<Longrightarrow>
     fst (evaluateComponents b cs p s) = fst (evaluateComponents b cs p t) \<and>
     sameView (snd (evaluateComponents b cs p s)) (snd (evaluateComponents b cs p t))"
proof (induction cs arbitrary: p s t)
  case Nil
  then show ?case by simp
next
  case (Cons c cs)
  note v = componentStep_view [OF Cons.prems, of b c p]
  show ?case
    unfolding evaluateComponents_Cons v(1)
    by (rule Cons.IH [OF v(2)])
qed

lemma incomingPower_view:
  assumes "sameView s t"
  shows "incomingPower L b s = incomingPower L b t"
proof -
  from assms have eq: "branchPowerStates s = branchPowerStates t"
    by (simp add: sameView_def)
  show ?thesis
    by (simp add: incomingPower_def eq split: option.splits)
qed

lemma evaluateBranch_view:
  assumes "sameView s t"
  shows "sameView (evaluateBranch L b s) (evaluateBranch L b t)"
proof -
  let ?p = "incomingPower L b t"
  have p: "incomingPower L b s = ?p" using assms by (rule incomingPower_view)
  let ?s1 = "s\<lparr>branchPowerStates := (branchPowerStates s)((branch_id b, Some (start_col b)) \<mapsto> ?p)\<rparr>"
  let ?t1 = "t\<lparr>branchPowerStates := (branchPowerStates t)((branch_id b, Some (start_col b)) \<mapsto> ?p)\<rparr>"
  have "sameView ?s1 ?t1" using assms by (simp add: sameView_def)
  from evaluateComponents_view [OF this, of b "components b" ?p]
  show ?thesis
    by (simp add: evaluateBranch_unfold p sameView_def)
qed

lemma evaluateBranches_view:
  "sameView s t \<Longrightarrow> sameView (evaluateBranches L bs s) (evaluateBranches L bs t)"
  by (induction bs arbitrary: s t) (auto intro: evaluateBranch_view)

lemma componentCalls_fst: "map fst (componentCalls b cs p s) = cs"
  by (induction cs arbitrary: p s) auto

lemma coilPowered_component:
  "coilPowered calls a \<Longrightarrow> \<exists>c\<in>set (map fst calls). ctype c = OUT \<and> address c = a"
  by (induction calls) auto

lemma ladderCalls_fst: "map fst (ladderCalls L bs s) = concat (map components bs)"
  by (induction bs arbitrary: s) (auto simp: branchCalls_def componentCalls_fst)

text \<open>
  When every coil is bound to an output address, a scan changes no pin whose address
  does not start with \<^verbatim>\<open>'O:'\<close>, and a second scan answers like the first.
\<close>

lemma scan_keeps_other_pins:
  assumes "coilsOnOutputs L" and "\<not> startsWith a ''O:''"
  shows "getPinState (executeScan (Some L) s) a = getPinState s a"
proof -
  have "\<not> coilPowered (scanCalls (Some L) s) a"
  proof
    assume "coilPowered (scanCalls (Some L) s) a"
    then obtain c where "c \<in> set (map fst (scanCalls (Some L) s))" "ctype c = OUT" "address c = a"
      using coilPowered_component by blast
    then obtain b where "b \<in> set (getAllBranches L)" "c \<in> set (components b)"
      by (auto simp: scanCalls_def ladderCalls_fst evaluationOrder_def)
    with assms(1) \<open>ctype c = OUT\<close> have "startsWith (address c) ''O:''"
      by (auto simp: coilsOnOutputs_def list_all_iff)
    with \<open>address c = a\<close> assms(2) show False by simp
  qed
  with assms(2) show ?thesis by (simp add: executeScan_pins)
qed

lemma executeScan_idempotent:
  assumes "coilsOnOutputs L"
  shows "sameView (executeScan (Some L) (executeScan (Some L) s)) (executeScan (Some L) s)"
proof -
  let ?s1 = "executeScan (Some L) s"
  let ?c = "\<lambda>u. u\<lparr>branchPowerStates := Map.empty, componentStates := Map.empty,
                     pinStates := clearOutputs (pinStates u)\<rparr>"
  have run: "isRunning ?s1 = isRunning s"
  proof -
    have c: "isRunning (snd (evaluateComponents b cs p u)) = isRunning u" for b cs p u
      by (induction cs arbitrary: p u)
         (simp_all add: evaluateComponents_Cons componentStep_unfold evaluateComponent_scratch
            del: evaluateComponents.simps(2))
    have "isRunning (evaluateBranches L bs u) = isRunning u" for bs u
      by (induction bs arbitrary: u) (simp_all add: evaluateBranch_unfold c)
    then show ?thesis by (simp add: executeScan_def evaluateLadder_def)
  qed
  have "getPinState (?c ?s1) a = getPinState (?c s) a" for a
  proof -
    have "getPinState (?c u) a = (\<not> startsWith a ''O:'' \<and> getPinState u a)" for u
      by (simp add: getPinState_def map_of_clearOutputs split: option.splits)
    then show ?thesis
      using scan_keeps_other_pins [OF assms, of a s] by auto
  qed
  then have "sameView (?c ?s1) (?c s)"
    using run by (simp add: sameView_def fun_eq_iff)
  then have "sameView (evaluateBranches L (evaluationOrder L) (?c ?s1))
                      (evaluateBranches L (evaluationOrder L) (?c s))"
    by (rule evaluateBranches_view)
  then show ?thesis
    by (simp add: executeScan_def evaluateLadder_def)
qed

lemma executeScan_twice:
  assumes "coilsOnOutputs L"
  shows "getPinState (executeScan (Some L) (executeScan (Some L) s)) a = getPinState (executeScan (Some L) s) a"
    and "isWireEnergized (Some L) (executeScan (Some L) (executeScan (Some L) s)) r k = isWireEnergized (Some L) (executeScan (Some L) s) r k"
    and "isComponentActive (executeScan (Some L) (executeScan (Some L) s)) r' k' = isComponentActive (executeScan (Some L) s) r' k'"
proof -
  note v = executeScan_idempotent [OF assms, of s]
  from v have g: "getPinState (executeScan (Some L) (executeScan (Some L) s)) = getPinState (executeScan (Some L) s)"
    and bp: "branchPowerStates (executeScan (Some L) (executeScan (Some L) s)) = branchPowerStates (executeScan (Some L) s)"
    and cs: "componentStates (executeScan (Some L) (executeScan (Some L) s)) = componentStates (executeScan (Some L) s)"
    by (simp_all add: sameView_def)
  show "getPinState (executeScan (Some L) (executeScan (Some L) s)) a = getPinState (executeScan (Some L) s) a"
    by (simp add: g)
  show "isWireEnergized (Some L) (executeScan (Some L) (executeScan (Some L) s)) r k = isWireEnergized (Some L) (executeScan (Some L) s) r k"
    by (simp add: isWireEnergized_def bp split: option.splits)
  show "isComponentActive (executeScan (Some L) (executeScan (Some L) s)) r' k' = isComponentActive (executeScan (Some L) s) r' k'"
    by (simp add: isComponentActive_def cs)
qed

section \<open>Properties of the grid engine\<close>

declare scanLoop.simps [simp del]


subsection \<open>The feedback loop\<close>

lemma changedAt_shift: "changedAt G s (Suc (Suc j)) = changedAt G (scanPass G s) (Suc j)"
  by (simp add: changedAt_def funpow_swap1)

lemma scanLoop_runs:
  "i \<le> MAX_ITERATIONS \<Longrightarrow>
   \<exists>m. scanLoop G i ch s = (i + m, (scanPass G ^^ m) s) \<and>
       i + m \<le> MAX_ITERATIONS \<and>
       (ch \<and> i < MAX_ITERATIONS \<longrightarrow> 1 \<le> m) \<and>
       (\<not> ch \<longrightarrow> m = 0) \<and>
       (\<forall>j. 1 \<le> j \<and> j < m \<longrightarrow> changedAt G s j) \<and>
       (1 \<le> m \<and> i + m < MAX_ITERATIONS \<longrightarrow> \<not> changedAt G s m)"
proof (induction G i ch s rule: scanLoop.induct)
  case (1 G i ch s)
  show ?case
  proof (cases "ch \<and> i < MAX_ITERATIONS")
    case False
    then have "scanLoop G i ch s = (i, s)" by (subst scanLoop.simps) auto
    with False "1.prems" show ?thesis by (intro exI [of _ 0]) auto
  next
    case True
    let ?s1 = "scanPass G s"
    let ?ch = "outputsChanged (saveOutputs s) ?s1"
    from True have le: "i + 1 \<le> MAX_ITERATIONS" by simp
    from "1.IH" [OF True refl refl le]
    obtain m where m: "scanLoop G (i + 1) ?ch ?s1 = (i + 1 + m, (scanPass G ^^ m) ?s1)"
      "i + 1 + m \<le> MAX_ITERATIONS"
      "?ch \<and> i + 1 < MAX_ITERATIONS \<longrightarrow> 1 \<le> m"
      "\<not> ?ch \<longrightarrow> m = 0"
      "\<forall>j. 1 \<le> j \<and> j < m \<longrightarrow> changedAt G ?s1 j"
      "1 \<le> m \<and> i + 1 + m < MAX_ITERATIONS \<longrightarrow> \<not> changedAt G ?s1 m"
      by blast
    have c1: "changedAt G s 1 = ?ch" by (simp add: changedAt_def)
    have eq: "scanLoop G i ch s = (i + Suc m, (scanPass G ^^ Suc m) s)"
      using True m(1) by (subst scanLoop.simps) (simp add: Let_def funpow_swap1)
    have a: "\<forall>j. 1 \<le> j \<and> j < Suc m \<longrightarrow> changedAt G s j"
    proof (intro allI impI)
      fix j assume j: "1 \<le> j \<and> j < Suc m"
      show "changedAt G s j"
      proof (cases "j = 1")
        case True
        from j True have "m \<noteq> 0" by simp
        with m(4) have ?ch by blast
        with c1 True show ?thesis by simp
      next
        case False
        with j obtain j' where j': "j = Suc (Suc j')" by (metis One_nat_def Suc_le_D not0_implies_Suc not_less_eq_eq le_0_eq)
        with j m(5) have "changedAt G ?s1 (Suc j')" by simp
        with j' show ?thesis by (simp add: changedAt_shift)
      qed
    qed
    have b: "1 \<le> Suc m \<and> i + Suc m < MAX_ITERATIONS \<longrightarrow> \<not> changedAt G s (Suc m)"
    proof (cases m)
      case 0
      with m(3) c1 show ?thesis by auto
    next
      case (Suc m')
      with m(6) show ?thesis by (simp add: changedAt_shift)
    qed
    show ?thesis
      using True eq m(2) a b by (intro exI [of _ "Suc m"]) simp
  qed
qed






subsection \<open>Pins that are not outputs, and a second scan cycle\<close>

lemma evaluateRows_Cons:
  "evaluateRows g k (r # rs) s =
     (fst (evaluateRow g k r s) # fst (evaluateRows g k rs (snd (evaluateRow g k r s))),
      snd (evaluateRows g k rs (snd (evaluateRow g k r s))))"
  by (simp add: evaluateRow_def Let_def split: prod.splits)

lemma getPinState_P_update:
  "getPinState_P (s\<lparr>pinStates_P := AList.update a v (pinStates_P s)\<rparr>) x =
     (if x = a then v else getPinState_P s x)"
  by (simp add: getPinState_P_def update_conv')

lemma getPinState_P_scratch [simp]:
  "getPinState_P (s\<lparr>wireStates_P := m\<rparr>) = getPinState_P s"
  "getPinState_P (s\<lparr>componentStates_P := n\<rparr>) = getPinState_P s"
  by (simp_all add: getPinState_P_def fun_eq_iff)

lemma evaluateCell_view:
  assumes "sameView_P s t"
  shows "fst (evaluateCell g r k s) = fst (evaluateCell g r k t)"
    and "sameView_P (snd (evaluateCell g r k s)) (snd (evaluateCell g r k t))"
proof -
  from assms have e: "getPinState_P s = getPinState_P t"
    "wireStates_P s = wireStates_P t" "componentStates_P s = componentStates_P t"
    by (simp_all add: sameView_P_def)
  show "fst (evaluateCell g r k s) = fst (evaluateCell g r k t)"
    by (simp add: evaluateCell_def Let_def e(1) split: option.splits kind.splits)
  show "sameView_P (snd (evaluateCell g r k s)) (snd (evaluateCell g r k t))"
    by (simp add: evaluateCell_def Let_def e sameView_P_def fun_eq_iff getPinState_P_update
        split: option.splits kind.splits)
qed

lemma evaluateCell_keeps:
  "\<not> startsWith a ''O:'' \<Longrightarrow> getPinState_P (snd (evaluateCell g r k s)) a = getPinState_P s a"
  by (auto simp: evaluateCell_def Let_def getPinState_P_update split: option.splits kind.splits)

lemma evaluateCell_running: "isRunning_P (snd (evaluateCell g r k s)) = isRunning_P s"
  by (simp add: evaluateCell_def Let_def split: option.splits kind.splits)

lemma evaluateRow_view:
  assumes "sameView_P s t"
  shows "fst (evaluateRow g k r s) = fst (evaluateRow g k r t)"
    and "sameView_P (snd (evaluateRow g k r s)) (snd (evaluateRow g k r t))"
proof -
  from assms have w: "wireStates_P s = wireStates_P t" by (simp add: sameView_P_def)
  note c = evaluateCell_view [OF assms]
  show "fst (evaluateRow g k r s) = fst (evaluateRow g k r t)"
    by (simp add: evaluateRow_def w checkVerticalPower_def c(1))
  show "sameView_P (snd (evaluateRow g k r s)) (snd (evaluateRow g k r t))"
    using c(2) assms by (simp add: evaluateRow_def w checkVerticalPower_def)
qed

lemma evaluateRow_keeps:
  "\<not> startsWith a ''O:'' \<Longrightarrow> getPinState_P (snd (evaluateRow g k r s)) a = getPinState_P s a"
  by (simp add: evaluateRow_def evaluateCell_keeps)

lemma evaluateRows_view:
  "sameView_P s t \<Longrightarrow>
     fst (evaluateRows g k rs s) = fst (evaluateRows g k rs t) \<and>
     sameView_P (snd (evaluateRows g k rs s)) (snd (evaluateRows g k rs t))"
proof (induction rs arbitrary: s t)
  case Nil
  then show ?case by simp
next
  case (Cons r rs)
  note v = evaluateRow_view [OF Cons.prems, of g k r]
  from Cons.IH [OF v(2)] v(1) show ?case
    by (simp add: evaluateRows_Cons del: evaluateRows.simps(2))
qed

lemma evaluateRows_keeps:
  "\<not> startsWith a ''O:'' \<Longrightarrow> getPinState_P (snd (evaluateRows g k rs s)) a = getPinState_P s a"
  by (induction rs arbitrary: s)
     (simp_all add: evaluateRows_Cons evaluateRow_keeps del: evaluateRows.simps(2))

lemma evaluateColumn_unfold:
  "evaluateColumn g k rows s =
     (handleParallelPaths g k rows (fst (evaluateRows g k [0..<rows] s)),
      snd (evaluateRows g k [0..<rows] s))"
  by (simp add: evaluateColumn_def split: prod.splits)

lemma storeColumn_view:
  "sameView_P s t \<Longrightarrow> sameView_P (storeColumn k cp rs s) (storeColumn k cp rs t)"
  by (induction rs arbitrary: s t) (simp_all add: storeColumn_def sameView_P_def)

lemma storeColumn_pins: "getPinState_P (storeColumn k cp rs s) = getPinState_P s"
  by (induction rs arbitrary: s) (simp_all add: storeColumn_def)

lemma evaluateColumnStore_unfold:
  "evaluateColumnStore g k s =
     storeColumn k (handleParallelPaths g k (ROWS g) (fst (evaluateRows g k [0..<ROWS g] s)))
       [0..<ROWS g] (snd (evaluateRows g k [0..<ROWS g] s))"
  by (simp add: evaluateColumnStore_def evaluateColumn_unfold storeColumn_def)

lemma evaluateColumnStore_view:
  assumes "sameView_P s t"
  shows "sameView_P (evaluateColumnStore g k s) (evaluateColumnStore g k t)"
  using evaluateRows_view [OF assms, of g k "[0..<ROWS g]"]
  by (simp add: evaluateColumnStore_unfold storeColumn_view)

lemma evaluateColumnStore_keeps:
  "\<not> startsWith a ''O:'' \<Longrightarrow> getPinState_P (evaluateColumnStore g k s) a = getPinState_P s a"
  by (simp add: evaluateColumnStore_unfold storeColumn_pins evaluateRows_keeps)

lemma fold_view:
  assumes "\<And>k s t. sameView_P s t \<Longrightarrow> sameView_P (f k s) (f k t)"
  shows "sameView_P s t \<Longrightarrow> sameView_P (fold f ks s) (fold f ks t)"
  by (induction ks arbitrary: s t) (simp_all add: assms)

lemma fold_keeps:
  assumes "\<And>k s. getPinState_P (f k s) a = getPinState_P s a"
  shows "getPinState_P (fold f ks s) a = getPinState_P s a"
  by (induction ks arbitrary: s) (simp_all add: assms)

lemma evaluateLadder_P_view:
  assumes "sameView_P s t"
  shows "sameView_P (evaluateLadder_P G s) (evaluateLadder_P G t)"
proof (cases "gridAvailable G")
  case None
  with assms show ?thesis by (simp add: evaluateLadder_P_def)
next
  case (Some g)
  have "sameView_P (fold (evaluateColumnStore g) [0..<COLS g] s)
                   (fold (evaluateColumnStore g) [0..<COLS g] t)"
  proof (rule fold_view)
    show "sameView_P s t" by (rule assms)
  qed (rule evaluateColumnStore_view)
  with Some show ?thesis by (simp add: evaluateLadder_P_def)
qed

lemma evaluateLadder_P_keeps:
  assumes "\<not> startsWith a ''O:''"
  shows "getPinState_P (evaluateLadder_P G s) a = getPinState_P s a"
proof (cases "gridAvailable G")
  case None
  then show ?thesis by (simp add: evaluateLadder_P_def)
next
  case (Some g)
  have "getPinState_P (fold (evaluateColumnStore g) [0..<COLS g] s) a = getPinState_P s a"
    by (rule fold_keeps) (rule evaluateColumnStore_keeps [OF assms])
  with Some show ?thesis by (simp add: evaluateLadder_P_def)
qed

lemma sameView_P_wire:
  "sameView_P s t \<Longrightarrow>
     sameView_P (s\<lparr>wireStates_P := (wireStates_P s)(x \<mapsto> v)\<rparr>)
                (t\<lparr>wireStates_P := (wireStates_P t)(x \<mapsto> v)\<rparr>)"
  by (simp add: sameView_P_def)

lemma energizeMain_view:
  "sameView_P s t \<Longrightarrow> sameView_P (energizeMain g ks s) (energizeMain g ks t)"
  by (induction ks arbitrary: s t) (simp_all add: sameView_P_wire)

lemma energizeMain_pins: "getPinState_P (energizeMain g ks s) = getPinState_P s"
  by (induction ks arbitrary: s) simp_all

lemma energizeBranch_view:
  "sameView_P s t \<Longrightarrow> sameView_P (energizeBranch g r ks s) (energizeBranch g r ks t)"
  by (induction ks arbitrary: s t) (simp_all add: sameView_P_wire)

lemma energizeBranch_pins: "getPinState_P (energizeBranch g r ks s) = getPinState_P s"
  by (induction ks arbitrary: s) simp_all

lemma initializeBranchPower_view:
  assumes "sameView_P s t"
  shows "sameView_P (initializeBranchPower G s) (initializeBranchPower G t)"
proof (cases "gridAvailable G")
  case None
  with assms show ?thesis by (simp add: initializeBranchPower_def)
next
  case (Some g)
  have inner: "sameView_P u v \<Longrightarrow>
      sameView_P (fold (\<lambda>k u. energizeBranch g r [findStartCol g r..<COLS g] u) ks u)
                 (fold (\<lambda>k u. energizeBranch g r [findStartCol g r..<COLS g] u) ks v)" for r ks u v
  proof (rule fold_view)
    assume "sameView_P u v"
    then show "sameView_P u v" .
  qed (rule energizeBranch_view)
  have "sameView_P
      (fold (\<lambda>r t. fold (\<lambda>k u. energizeBranch g r [findStartCol g r..<COLS g] u) (powerCols g r) t)
         [1..<ROWS g] (energizeMain g [0..<COLS g] s))
      (fold (\<lambda>r t. fold (\<lambda>k u. energizeBranch g r [findStartCol g r..<COLS g] u) (powerCols g r) t)
         [1..<ROWS g] (energizeMain g [0..<COLS g] t))"
  proof (rule fold_view)
    show "sameView_P (energizeMain g [0..<COLS g] s) (energizeMain g [0..<COLS g] t)"
      by (rule energizeMain_view [OF assms])
  qed (rule inner)
  with Some show ?thesis by (simp add: initializeBranchPower_def)
qed

lemma initializeBranchPower_pins:
  "getPinState_P (initializeBranchPower G s) a = getPinState_P s a"
proof (cases "gridAvailable G")
  case None
  then show ?thesis by (simp add: initializeBranchPower_def)
next
  case (Some g)
  have inner: "getPinState_P
      (fold (\<lambda>k u. energizeBranch g r [findStartCol g r..<COLS g] u) ks u) a = getPinState_P u a"
    for r ks u
    by (rule fold_keeps) (simp add: energizeBranch_pins)
  have "getPinState_P
      (fold (\<lambda>r t. fold (\<lambda>k u. energizeBranch g r [findStartCol g r..<COLS g] u) (powerCols g r) t)
         [1..<ROWS g] (energizeMain g [0..<COLS g] s)) a =
      getPinState_P (energizeMain g [0..<COLS g] s) a"
    by (rule fold_keeps) (rule inner)
  with Some show ?thesis by (simp add: initializeBranchPower_def energizeMain_pins)
qed

lemma getPinState_P_clearForScan:
  "getPinState_P (clearForScan s) a = (\<not> startsWith a ''O:'' \<and> getPinState_P s a)"
  by (simp add: clearForScan_def getPinState_P_def map_of_clearOutputs split: option.splits)

lemma clearForScan_view: "sameInputs s t \<Longrightarrow> sameView_P (clearForScan s) (clearForScan t)"
  by (auto simp: sameView_P_def sameInputs_def fun_eq_iff getPinState_P_clearForScan)
     (simp_all add: clearForScan_def)

lemma scanPass_view: "sameInputs s t \<Longrightarrow> sameView_P (scanPass G s) (scanPass G t)"
  unfolding scanPass_def
  by (intro evaluateLadder_P_view initializeBranchPower_view clearForScan_view)

lemma scanPass_keeps:
  "\<not> startsWith a ''O:'' \<Longrightarrow> getPinState_P (scanPass G s) a = getPinState_P s a"
  by (simp add: scanPass_def evaluateLadder_P_keeps initializeBranchPower_pins
      getPinState_P_clearForScan)

lemma funpow_scanPass_keeps:
  "\<not> startsWith a ''O:'' \<Longrightarrow> getPinState_P ((scanPass G ^^ n) s) a = getPinState_P s a"
  by (induction n) (simp_all add: scanPass_keeps)

text \<open>
  The grid engine writes a pin only through the guarded assignment of \<open>evaluateCell\<close>:
  a scan cycle changes no pin whose address does not start with \<^verbatim>\<open>'O:'\<close>, and a
  second scan cycle answers like the first.
\<close>

lemma executeScanCycle_funpow:
  "\<exists>m. 1 \<le> m \<and> m \<le> 10 \<and> executeScanCycle G s = (m, (scanPass G ^^ m) s)"
  using scanLoop_runs [of 0 G True s]
  by (auto simp: executeScanCycle_def MAX_ITERATIONS_def)

lemma executeScanCycle_keeps_inputs:
  assumes "\<not> startsWith a ''O:''"
  shows "getPinState_P (snd (executeScanCycle G s)) a = getPinState_P s a"
proof -
  obtain m where "executeScanCycle G s = (m, (scanPass G ^^ m) s)"
    using executeScanCycle_funpow by blast
  then show ?thesis by (simp add: funpow_scanPass_keeps [OF assms])
qed

lemma funpow_scanPass_view:
  assumes "sameInputs s t"
  shows "sameView_P ((scanPass G ^^ Suc m) s) ((scanPass G ^^ Suc n) t)"
proof -
  have "sameInputs ((scanPass G ^^ m) s) ((scanPass G ^^ n) t)"
    using assms by (simp add: sameInputs_def funpow_scanPass_keeps)
  then show ?thesis by (simp add: scanPass_view)
qed

lemma executeScanCycle_idempotent:
  "sameView_P (snd (executeScanCycle G (snd (executeScanCycle G s)))) (snd (executeScanCycle G s))"
proof -
  obtain n where n: "1 \<le> n" "executeScanCycle G s = (n, (scanPass G ^^ n) s)"
    using executeScanCycle_funpow by blast
  let ?s1 = "(scanPass G ^^ n) s"
  obtain m where m: "1 \<le> m" "executeScanCycle G ?s1 = (m, (scanPass G ^^ m) ?s1)"
    using executeScanCycle_funpow by blast
  from n(1) obtain n' where n': "n = Suc n'" by (cases n) auto
  from m(1) obtain m' where m': "m = Suc m'" by (cases m) auto
  have "sameInputs ?s1 s" by (simp add: sameInputs_def funpow_scanPass_keeps)
  then have "sameView_P ((scanPass G ^^ Suc m') ?s1) ((scanPass G ^^ Suc n') s)"
    by (rule funpow_scanPass_view)
  with n m n' m' show ?thesis by simp
qed

lemma executeScanCycle_twice:
  "getPinState_P (snd (executeScanCycle G (snd (executeScanCycle G s)))) a =
     getPinState_P (snd (executeScanCycle G s)) a"
  "isWireEnergized_P (snd (executeScanCycle G (snd (executeScanCycle G s)))) r k =
     isWireEnergized_P (snd (executeScanCycle G s)) r k"
  "isComponentActive_P (snd (executeScanCycle G (snd (executeScanCycle G s)))) r k =
     isComponentActive_P (snd (executeScanCycle G s)) r k"
  using executeScanCycle_idempotent [of G s]
  by (simp_all add: sameView_P_def isWireEnergized_P_def isComponentActive_P_def)

end
